theory Spec2Isabelle
  imports Main "HOL-Library.Sublist"
begin

section \<open>Strings, runes and the standard-library functions the loader calls\<close>

text \<open>
  A Go string is a sequence of bytes; it is modelled as \<^typ>\<open>string\<close>, one
  \<^typ>\<open>char\<close> per byte. A rune (code point) is a natural number.
\<close>

type_synonym rune = nat

definition byte :: "char \<Rightarrow> nat" where
  "byte c = of_char c"

definition RuneError :: rune where
  "RuneError = 0xFFFD"

text \<open>
  \<open>utf8.DecodeRuneInString\<close>: the first rune of a string and the number of bytes it
  takes. The lead byte selects the length of the encoding and the range accepted for
  the second byte; every malformed or truncated encoding gives \<open>(RuneError, 1)\<close>.
\<close>

definition lead_info :: "nat \<Rightarrow> (nat \<times> nat \<times> nat) option" where
  "lead_info b =
     (if 0xC2 \<le> b \<and> b \<le> 0xDF then Some (2, 0x80, 0xBF)
      else if b = 0xE0 then Some (3, 0xA0, 0xBF)
      else if b = 0xED then Some (3, 0x80, 0x9F)
      else if 0xE1 \<le> b \<and> b \<le> 0xEF then Some (3, 0x80, 0xBF)
      else if b = 0xF0 then Some (4, 0x90, 0xBF)
      else if 0xF1 \<le> b \<and> b \<le> 0xF3 then Some (4, 0x80, 0xBF)
      else if b = 0xF4 then Some (4, 0x80, 0x8F)
      else None)"

fun DecodeRuneInString :: "string \<Rightarrow> rune \<times> nat" where
  "DecodeRuneInString [] = (RuneError, 0)"
| "DecodeRuneInString (c0 # rest) =
     (let s0 = byte c0 in
      if s0 < 0x80 then (s0, 1)
      else case lead_info s0 of
        None \<Rightarrow> (RuneError, 1)
      | Some (sz, lo, hi) \<Rightarrow>
          if length rest + 1 < sz then (RuneError, 1)
          else let s1 = byte (rest ! 0) in
            if s1 < lo \<or> hi < s1 then (RuneError, 1)
            else if sz \<le> 2 then ((s0 mod 32) * 64 + s1 mod 64, 2)
            else let s2 = byte (rest ! 1) in
              if s2 < 0x80 \<or> 0xBF < s2 then (RuneError, 1)
              else if sz \<le> 3 then ((s0 mod 16) * 4096 + (s1 mod 64) * 64 + s2 mod 64, 3)
              else let s3 = byte (rest ! 2) in
                if s3 < 0x80 \<or> 0xBF < s3 then (RuneError, 1)
                else ((s0 mod 8) * 262144 + (s1 mod 64) * 4096 + (s2 mod 64) * 64
                        + s3 mod 64, 4))"

text \<open>
  \<open>for i, r := range s\<close>: the byte index and the rune of every decoding step, left to
  right. The first argument counts the bytes of the current rune still to be skipped,
  the second is the index of the next byte.
\<close>

fun range_from :: "nat \<Rightarrow> nat \<Rightarrow> string \<Rightarrow> (nat \<times> rune) list" where
  "range_from skip i [] = []"
| "range_from skip i (c # cs) =
     (if 0 < skip then range_from (skip - 1) (Suc i) cs
      else (i, fst (DecodeRuneInString (c # cs)))
             # range_from (snd (DecodeRuneInString (c # cs)) - 1) (Suc i) cs)"

definition range_runes :: "string \<Rightarrow> (nat \<times> rune) list" where
  "range_runes s = range_from 0 0 s"

text \<open>
  Package \<open>unicode\<close>. Each predicate answers for the Latin-1 code points from a fixed
  property table and for the others from a range table. The range tables of the
  categories L (letters) and Nd (decimal digits) beyond U+00FF grow with every Unicode
  version and are not part of the repository: they are parameters of the model.
\<close>

record unicode_tables =
  Letter :: "rune \<Rightarrow> bool"
  Digit :: "rune \<Rightarrow> bool"

definition latin1_letter :: "rune \<Rightarrow> bool" where
  "latin1_letter r =
     ((0x41 \<le> r \<and> r \<le> 0x5A) \<or> (0x61 \<le> r \<and> r \<le> 0x7A)
      \<or> r = 0xAA \<or> r = 0xB5 \<or> r = 0xBA
      \<or> (0xC0 \<le> r \<and> r \<le> 0xD6) \<or> (0xD8 \<le> r \<and> r \<le> 0xF6)
      \<or> (0xF8 \<le> r \<and> r \<le> 0xFF))"

definition IsLetter :: "unicode_tables \<Rightarrow> rune \<Rightarrow> bool" where
  "IsLetter tbl r = (if r \<le> 0xFF then latin1_letter r else Letter tbl r)"

definition IsDigit :: "unicode_tables \<Rightarrow> rune \<Rightarrow> bool" where
  "IsDigit tbl r = (if r \<le> 0xFF then 0x30 \<le> r \<and> r \<le> 0x39 else Digit tbl r)"

definition IsSpace :: "rune \<Rightarrow> bool" where
  "IsSpace r =
     (if r \<le> 0xFF then r = 0x09 \<or> r = 0x0A \<or> r = 0x0B \<or> r = 0x0C \<or> r = 0x0D
                         \<or> r = 0x20 \<or> r = 0x85 \<or> r = 0xA0
      else r = 0x1680 \<or> (0x2000 \<le> r \<and> r \<le> 0x200A) \<or> r = 0x2028 \<or> r = 0x2029
           \<or> r = 0x202F \<or> r = 0x205F \<or> r = 0x3000)"

text \<open>
  \<open>utf8.DecodeLastRuneInString\<close>: the last rune of a string and its width. It walks
  back over at most \<open>UTFMax = 4\<close> bytes to a byte that can start a rune, decodes
  forward from there and accepts the result only if it ends exactly at the end.
\<close>

definition RuneStart :: "nat \<Rightarrow> bool" where
  "RuneStart b = (\<not> (0x80 \<le> b \<and> b \<le> 0xBF))"

function scan_back :: "string \<Rightarrow> int \<Rightarrow> int \<Rightarrow> int" where
  "scan_back s lim start =
     (if lim \<le> start then
        (if RuneStart (byte (s ! nat start)) then start else scan_back s lim (start - 1))
      else start)"
  by pat_completeness auto
termination
  by (relation "measure (\<lambda>(s, lim, start). nat (start - lim + 1))") auto

declare scan_back.simps [simp del]

definition last_start :: "string \<Rightarrow> nat" where
  "last_start s =
     (let end = int (length s);
          lim = (if end - 4 < 0 then 0 else end - 4);
          start = scan_back s lim (end - 2)
      in nat (if start < 0 then 0 else start))"

definition DecodeLastRuneInString :: "string \<Rightarrow> rune \<times> nat" where
  "DecodeLastRuneInString s =
     (if length s = 0 then (RuneError, 0)
      else let r = byte (s ! (length s - 1)) in
        if r < 0x80 then (r, 1)
        else let start = last_start s;
                 d = DecodeRuneInString (drop start s)
             in if start + snd d \<noteq> length s then (RuneError, 1) else d)"

text \<open>
  \<open>strings.TrimSpace\<close> is \<open>TrimFunc(s, unicode.IsSpace)\<close>: the leading white-space runes
  are found by ranging over the string, the trailing ones by decoding from the end.
\<close>

fun indexFunc_nonspace :: "(nat \<times> rune) list \<Rightarrow> nat option" where
  "indexFunc_nonspace [] = None"
| "indexFunc_nonspace ((i, r) # rs) = (if \<not> IsSpace r then Some i else indexFunc_nonspace rs)"

definition TrimLeftSpace :: "string \<Rightarrow> string" where
  "TrimLeftSpace s =
     (case indexFunc_nonspace (range_runes s) of None \<Rightarrow> [] | Some i \<Rightarrow> drop i s)"

lemma scan_back_le: "scan_back s lim start \<le> start"
proof (induction s lim start rule: scan_back.induct)
  case (1 s lim start)
  show ?case
  proof (cases "lim \<le> start \<and> \<not> RuneStart (byte (s ! nat start))")
    case True
    with 1 have "scan_back s lim (start - 1) \<le> start - 1" by simp
    moreover from True have "scan_back s lim start = scan_back s lim (start - 1)"
      by (simp add: scan_back.simps [of s lim start])
    ultimately show ?thesis by simp
  next
    case False
    then show ?thesis by (auto simp: scan_back.simps [of s lim start])
  qed
qed

lemma last_start_less: "s \<noteq> [] \<Longrightarrow> last_start s < length s"
  using scan_back_le [of s "if int (length s) - 4 < 0 then 0 else int (length s) - 4"
      "int (length s) - 2"]
  by (auto simp: last_start_def Let_def)

lemma DecodeLastRuneInString_size_pos:
  assumes "s \<noteq> []"
  shows "0 < snd (DecodeLastRuneInString s)"
  using assms last_start_less [OF assms]
  by (auto simp: DecodeLastRuneInString_def Let_def)

function TrimRightSpace :: "string \<Rightarrow> string" where
  "TrimRightSpace s =
     (if s = [] then []
      else if IsSpace (fst (DecodeLastRuneInString s))
        then TrimRightSpace (take (length s - snd (DecodeLastRuneInString s)) s)
        else s)"
  by pat_completeness auto
termination
proof (relation "measure length")
  show "wf (measure length)" by simp
next
  fix s :: string
  assume "s \<noteq> []"
  then have "0 < snd (DecodeLastRuneInString s)" "0 < length s"
    by (simp_all add: DecodeLastRuneInString_size_pos)
  then show "(take (length s - snd (DecodeLastRuneInString s)) s, s) \<in> measure length"
    by simp
qed

declare TrimRightSpace.simps [simp del]

definition TrimSpace :: "string \<Rightarrow> string" where
  "TrimSpace s = TrimRightSpace (TrimLeftSpace s)"

definition HasPrefix :: "string \<Rightarrow> string \<Rightarrow> bool" where
  "HasPrefix s p = (length p \<le> length s \<and> take (length p) s = p)"

definition TrimPrefix :: "string \<Rightarrow> string \<Rightarrow> string" where
  "TrimPrefix s p = (if HasPrefix s p then drop (length p) s else s)"

section \<open>The key validator\<close>

fun key_rest_ok :: "unicode_tables \<Rightarrow> (nat \<times> rune) list \<Rightarrow> bool" where
  "key_rest_ok tbl [] = True"
| "key_rest_ok tbl ((i, ch) # rs) =
     (if \<not> IsLetter tbl ch \<and> \<not> IsDigit tbl ch \<and> ch \<noteq> 0x5F then False
      else key_rest_ok tbl rs)"

definition isValidEnvKey :: "unicode_tables \<Rightarrow> string \<Rightarrow> bool" where
  "isValidEnvKey tbl key =
     (if key = [] then False
      else let firstChar = byte (hd key) in
        if \<not> IsLetter tbl firstChar \<and> firstChar \<noteq> 0x5F then False
        else key_rest_ok tbl (range_runes (tl key)))"

section \<open>The quote stripper\<close>

definition unquoteValue :: "string \<Rightarrow> string" where
  "unquoteValue v =
     (if 2 \<le> length v then
        (let first = v ! 0; lst = v ! (length v - 1) in
         if (first = CHR 0x22 \<and> lst = CHR 0x22) \<or> (first = CHR 0x27 \<and> lst = CHR 0x27)
         then drop 1 (take (length v - 1) v)
         else v)
      else v)"

section \<open>The line parser\<close>

datatype parse_error = MissingEquals | EmptyKey | InvalidKey string

text \<open>
  The scanning loop of \<open>parseLine\<close> over the runes of the line, with the loop variables
  \<open>inQuotes\<close> and \<open>quoteChar\<close>; \<open>None\<close> is \<open>equalsIndex == -1\<close>.
\<close>

fun scan_equals :: "(nat \<times> rune) list \<Rightarrow> bool \<Rightarrow> rune \<Rightarrow> nat option" where
  "scan_equals [] inQuotes quoteChar = None"
| "scan_equals ((i, ch) # rs) inQuotes quoteChar =
     (if ch = 0x22 \<or> ch = 0x27 then
        (if \<not> inQuotes then scan_equals rs True ch
         else if ch = quoteChar then scan_equals rs False quoteChar
         else scan_equals rs inQuotes quoteChar)
      else if ch = 0x3D \<and> \<not> inQuotes then Some i
      else scan_equals rs inQuotes quoteChar)"

definition parseLine :: "unicode_tables \<Rightarrow> string \<Rightarrow> parse_error + string \<times> string" where
  "parseLine tbl line0 =
     (let line = TrimPrefix line0 ''export'' in
      case scan_equals (range_runes line) False 0 of
        None \<Rightarrow> Inl MissingEquals
      | Some equalsIndex \<Rightarrow>
          let key = TrimSpace (take equalsIndex line);
              val = TrimSpace (drop (equalsIndex + 1) line)
          in if key = [] then Inl EmptyKey
             else if \<not> isValidEnvKey tbl key then Inl (InvalidKey key)
             else Inr (key, unquoteValue val))"

section \<open>The process environment\<close>

text \<open>
  The environment table maps names to values. \<open>os.Getenv\<close> gives the empty string for
  a name that is absent. \<open>os.Setenv\<close> (as \<open>syscall.Setenv\<close> on Unix) refuses an empty
  name, a name containing \<open>=\<close> or a NUL byte, and a value containing a NUL byte.
\<close>

type_synonym env = "string \<rightharpoonup> string"

definition Getenv :: "env \<Rightarrow> string \<Rightarrow> string" where
  "Getenv e key = (case e key of None \<Rightarrow> [] | Some v \<Rightarrow> v)"

datatype errno = EINVAL

definition Setenv :: "env \<Rightarrow> string \<Rightarrow> string \<Rightarrow> errno + env" where
  "Setenv e key val =
     (if key = [] then Inl EINVAL
      else if list_ex (\<lambda>c. c = CHR ''='' \<or> c = CHR 0x00) key then Inl EINVAL
      else if list_ex (\<lambda>c. c = CHR 0x00) val then Inl EINVAL
      else Inr (e(key \<mapsto> val)))"

definition GetEnv :: "env \<Rightarrow> string \<Rightarrow> string \<Rightarrow> string" where
  "GetEnv e key defaultValue =
     (let val = Getenv e key in if val \<noteq> [] then val else defaultValue)"

text \<open>\<open>GetEnvOrPanic\<close>: \<open>Inl\<close> is the panic, carrying its message.\<close>

definition GetEnvOrPanic :: "env \<Rightarrow> string \<Rightarrow> string + string" where
  "GetEnvOrPanic e key =
     (let val = Getenv e key in
      if val \<noteq> [] then Inr val
      else Inl (''quickenv: required environment variable '' @ key @ '' is not set''))"

section \<open>Options\<close>

record LoadOptions =
  Pathname :: string
  Overwrite :: bool
  Debug :: bool
  MaxLevels :: int

definition DefaultLoadOptions :: LoadOptions where
  "DefaultLoadOptions =
     \<lparr>Pathname = ''.env'', Overwrite = False, Debug = False, MaxLevels = 3\<rparr>"

text \<open>The variadic argument is a list of pointers; \<open>None\<close> is the nil pointer.\<close>

definition parseOptions :: "LoadOptions option list \<Rightarrow> LoadOptions" where
  "parseOptions opts =
     (case opts of
        Some given # _ \<Rightarrow>
          (let r1 = (if Pathname given = [] then given\<lparr>Pathname := ''.env''\<rparr> else given);
               r2 = (if MaxLevels r1 \<le> 0 then r1\<lparr>MaxLevels := 3\<rparr> else r1)
           in r2)
      | _ \<Rightarrow> DefaultLoadOptions)"

section \<open>Reading lines\<close>

text \<open>
  A reader delivers the bytes of \<open>data\<close> and then either the end of the stream or, when
  \<open>fails\<close> holds, an I/O error (on a read of its own, as a file does).
  \<open>bufio.Scanner\<close> with the default split function \<open>ScanLines\<close> cuts the bytes at
  every line feed, gives a final unterminated line as well, strips one trailing carriage
  return from each line, and stops with \<open>ErrTooLong\<close> at a line that does not fit its
  buffer of \<open>MaxScanTokenSize = 65536\<close> bytes. After the last line, \<open>Err()\<close> is the
  error that stopped the scan, if any.
\<close>

record reader =
  data :: string
  fails :: bool

datatype read_error = ErrTooLong | IOError

fun raw_lines :: "string \<Rightarrow> string list" where
  "raw_lines [] = []"
| "raw_lines (c # cs) =
     (if c = CHR 0x0A then [] # raw_lines cs
      else case raw_lines cs of [] \<Rightarrow> [[c]] | l # ls \<Rightarrow> (c # l) # ls)"

definition dropCR :: "string \<Rightarrow> string" where
  "dropCR l = (if 0 < length l \<and> l ! (length l - 1) = CHR 0x0D then take (length l - 1) l else l)"

definition MaxScanTokenSize :: nat where
  "MaxScanTokenSize = 65536"

definition scan_tokens :: "reader \<Rightarrow> string list" where
  "scan_tokens rd = map dropCR (takeWhile (\<lambda>l. length l < MaxScanTokenSize) (raw_lines (data rd)))"

definition scan_err :: "reader \<Rightarrow> read_error option" where
  "scan_err rd =
     (if list_ex (\<lambda>l. \<not> length l < MaxScanTokenSize) (raw_lines (data rd)) then Some ErrTooLong
      else if fails rd then Some IOError
      else None)"

section \<open>The loader\<close>

datatype load_error =
    EnvFileNotFound string
  | CannotGetCurrentDir
  | OpenFailed string
  | SetFailed string errno
  | ReadFailed read_error

text \<open>What debug mode writes to standard error: the arguments of each \<open>Fprintf\<close>.\<close>

datatype log_entry =
    SkipInvalidLine string parse_error
  | SetVar string string

record process =
  environ :: env
  stderr :: "log_entry list"

definition value_mask :: "string \<Rightarrow> string" where
  "value_mask val = (if length val < 5 then replicate (length val) (CHR ''*'') else ''***'')"

text \<open>
  The loop of \<open>loadFromReader\<close> over the lines the scanner gives, with the counter
  \<open>loaded\<close>; \<open>serr\<close> is what \<open>scanner.Err()\<close> returns after the last line.
\<close>

fun load_lines :: "unicode_tables \<Rightarrow> LoadOptions \<Rightarrow> read_error option \<Rightarrow> string list
    \<Rightarrow> process \<Rightarrow> nat \<Rightarrow> process \<times> nat \<times> load_error option" where
  "load_lines tbl options serr [] st loaded =
     (case serr of
        Some err \<Rightarrow> (st, loaded, Some (ReadFailed err))
      | None \<Rightarrow> (st, loaded, None))"
| "load_lines tbl options serr (text # rest) st loaded =
     (let line = TrimSpace text in
      if line = [] \<or> HasPrefix line ''#'' then load_lines tbl options serr rest st loaded
      else case parseLine tbl line of
        Inl err \<Rightarrow>
          load_lines tbl options serr rest
            (if Debug options then st\<lparr>stderr := stderr st @ [SkipInvalidLine line err]\<rparr> else st)
            loaded
      | Inr (key, val) \<Rightarrow>
          if Overwrite options \<or> Getenv (environ st) key = [] then
            (case Setenv (environ st) key val of
               Inl err \<Rightarrow> (st, loaded, Some (SetFailed key err))
             | Inr e' \<Rightarrow>
                 load_lines tbl options serr rest
                   (if Debug options
                    then st\<lparr>environ := e', stderr := stderr st @ [SetVar key (value_mask val)]\<rparr>
                    else st\<lparr>environ := e'\<rparr>)
                   (loaded + 1))
          else load_lines tbl options serr rest st loaded)"

definition loadFromReader :: "unicode_tables \<Rightarrow> reader \<Rightarrow> LoadOptions \<Rightarrow> process
    \<Rightarrow> process \<times> nat \<times> load_error option" where
  "loadFromReader tbl rd options st =
     load_lines tbl options (scan_err rd) (scan_tokens rd) st 0"

section \<open>Locating the file\<close>

text \<open>
  Package \<open>path/filepath\<close> on Unix. \<open>Clean\<close> drops empty and \<open>.\<close> elements, resolves
  \<open>..\<close> against the element before it (at the root it is dropped, at the start of a
  relative path it is kept), and gives \<open>.\<close> for an empty result. \<open>Dir\<close> cleans the
  path up to its last separator, \<open>Join\<close> cleans the elements joined by a separator.
\<close>

fun split_slash :: "string \<Rightarrow> string list" where
  "split_slash [] = [[]]"
| "split_slash (c # cs) =
     (if c = CHR ''/'' then [] # split_slash cs
      else case split_slash cs of [] \<Rightarrow> [[c]] | e # es \<Rightarrow> (c # e) # es)"

fun join_slash :: "string list \<Rightarrow> string" where
  "join_slash [] = []"
| "join_slash [e] = e"
| "join_slash (e # es) = e @ CHR ''/'' # join_slash es"

fun clean_elems :: "bool \<Rightarrow> string list \<Rightarrow> string list \<Rightarrow> string list" where
  "clean_elems rooted out [] = rev out"
| "clean_elems rooted out (e # es) =
     (if e = [] \<or> e = ''.'' then clean_elems rooted out es
      else if e = ''..'' then
        (case out of
           t # ts \<Rightarrow>
             if t \<noteq> ''..'' then clean_elems rooted ts es
             else clean_elems rooted (''..'' # out) es
         | [] \<Rightarrow>
             if rooted then clean_elems rooted out es
             else clean_elems rooted (''..'' # out) es)
      else clean_elems rooted (e # out) es)"

definition Clean :: "string \<Rightarrow> string" where
  "Clean path =
     (if path = [] then ''.''
      else let rooted = (hd path = CHR ''/'');
               body = join_slash (clean_elems rooted [] (split_slash path))
           in if rooted then CHR ''/'' # body
              else if body = [] then ''.'' else body)"

definition Dir :: "string \<Rightarrow> string" where
  "Dir path = Clean (rev (dropWhile (\<lambda>c. c \<noteq> CHR ''/'') (rev path)))"

definition Join :: "string \<Rightarrow> string \<Rightarrow> string" where
  "Join d name =
     (if d \<noteq> [] then Clean (d @ CHR ''/'' # name)
      else if name \<noteq> [] then Clean name
      else [])"

text \<open>
  The file system as the locator and \<open>Load\<close> see it: the paths for which \<open>os.Stat\<close>
  succeeds, what \<open>os.Getwd\<close> returns (\<open>None\<close> when it fails) and what \<open>os.Open\<close>
  gives for a path (\<open>None\<close> when it fails).
\<close>

record filesystem =
  stat_ok :: "string \<Rightarrow> bool"
  getwd :: "string option"
  open_file :: "string \<Rightarrow> reader option"

text \<open>The climbing loop of \<open>findEnvFile\<close>; the counter is the number of steps left.\<close>

fun climb :: "filesystem \<Rightarrow> string \<Rightarrow> nat \<Rightarrow> string \<Rightarrow> load_error + string" where
  "climb fs pathname 0 dir = Inl (EnvFileNotFound pathname)"
| "climb fs pathname (Suc n) dir =
     (let parent = Dir dir in
      if parent = dir then Inl (EnvFileNotFound pathname)
      else let path = Join parent pathname in
        if stat_ok fs path then Inr path
        else climb fs pathname n parent)"

definition findEnvFile :: "filesystem \<Rightarrow> string \<Rightarrow> int \<Rightarrow> load_error + string" where
  "findEnvFile fs pathname maxLevels =
     (if stat_ok fs pathname then Inr pathname
      else case getwd fs of
        None \<Rightarrow> Inl CannotGetCurrentDir
      | Some dir \<Rightarrow> climb fs pathname (nat maxLevels) dir)"

definition Load :: "unicode_tables \<Rightarrow> filesystem \<Rightarrow> LoadOptions option list \<Rightarrow> process
    \<Rightarrow> process \<times> nat \<times> load_error option" where
  "Load tbl fs opts st =
     (let options = parseOptions opts in
      case findEnvFile fs (Pathname options) (MaxLevels options) of
        Inl err \<Rightarrow> (st, 0, Some err)
      | Inr filePath \<Rightarrow>
          (case open_file fs filePath of
             None \<Rightarrow> (st, 0, Some (OpenFailed filePath))
           | Some rd \<Rightarrow> loadFromReader tbl rd options st))"

section \<open>Properties of the quote stripper\<close>

lemma unquoteValue_cases:
  "unquoteValue v =
     (if 2 \<le> length v \<and> ((hd v = CHR 0x22 \<and> last v = CHR 0x22) \<or> (hd v = CHR 0x27 \<and> last v = CHR 0x27))
      then butlast (tl v) else v)"
proof (cases "2 \<le> length v")
  case False
  then show ?thesis by (simp add: unquoteValue_def)
next
  case True
  then have ne: "v \<noteq> []" by auto
  have h: "v ! 0 = hd v" using ne by (simp add: hd_conv_nth)
  have l: "v ! (length v - 1) = last v" using ne by (simp add: last_conv_nth)
  have m: "drop 1 (take (length v - 1) v) = butlast (tl v)"
    by (simp add: butlast_conv_take drop_take drop_Suc)
  show ?thesis
    using True by (simp add: unquoteValue_def Let_def h l m del: One_nat_def)
qed

lemma unquoteValue_wrapped:
  assumes "q = CHR 0x22 \<or> q = CHR 0x27"
  shows "unquoteValue (q # inner @ [q]) = inner"
  using assms by (auto simp: unquoteValue_cases)

text \<open>
  C7. The quote stripper removes the first and the last byte of a value exactly when
  the value has at least two bytes and both are the double quote or both are the single
  quote; every other value (shorter than two bytes, or with different bytes at the two
  ends) is returned unchanged. What stands between the two quotes is returned as it is:
  one layer of quotes is removed and nothing is decoded.
\<close>

theorem unquoteValue_strips_one_matching_pair:
  "(unquoteValue v =
      (if 2 \<le> length v \<and> ((hd v = CHR 0x22 \<and> last v = CHR 0x22)
                               \<or> (hd v = CHR 0x27 \<and> last v = CHR 0x27))
       then butlast (tl v) else v))
   \<and> (q = CHR 0x22 \<or> q = CHR 0x27 \<longrightarrow> unquoteValue (q # inner @ [q]) = inner)
   \<and> (length v < 2 \<longrightarrow> unquoteValue v = v)
   \<and> (a \<noteq> b \<longrightarrow> unquoteValue (a # mid @ [b]) = a # mid @ [b])"
proof (intro conjI impI)
  show "unquoteValue v =
      (if 2 \<le> length v \<and> ((hd v = CHR 0x22 \<and> last v = CHR 0x22)
                               \<or> (hd v = CHR 0x27 \<and> last v = CHR 0x27))
       then butlast (tl v) else v)"
    by (rule unquoteValue_cases)
next
  assume "q = CHR 0x22 \<or> q = CHR 0x27"
  then show "unquoteValue (q # inner @ [q]) = inner"
    by (rule unquoteValue_wrapped)
next
  assume "length v < 2"
  then show "unquoteValue v = v"
    by (simp add: unquoteValue_def)
next
  assume "a \<noteq> b"
  then show "unquoteValue (a # mid @ [b]) = a # mid @ [b]"
    by (auto simp: unquoteValue_cases)
qed

theorem unquoteValue_strips_one_matching_pair_witness:
  "unquoteValue [CHR 0x22, CHR 0x22, CHR ''a'', CHR 0x22, CHR 0x22] = [CHR 0x22, CHR ''a'', CHR 0x22]
   \<and> unquoteValue (CHR 0x27 # ''New York'' @ [CHR 0x27]) = ''New York''
   \<and> unquoteValue (CHR 0x22 # [CHR ''a'', CHR 0x5C, CHR 0x22, CHR ''b''] @ [CHR 0x22])
        = [CHR ''a'', CHR 0x5C, CHR 0x22, CHR ''b'']
   \<and> unquoteValue [CHR 0x22] = [CHR 0x22]
   \<and> unquoteValue (CHR 0x22 # ''mixed'' @ [CHR 0x27]) = CHR 0x22 # ''mixed'' @ [CHR 0x27]"
  using unquoteValue_strips_one_matching_pair
          [of "[CHR 0x22, CHR 0x22, CHR ''a'', CHR 0x22, CHR 0x22]" "CHR 0x27" "''New York''"
              "CHR 0x22" "CHR 0x27" "''mixed''"]
        unquoteValue_strips_one_matching_pair
          [of "[CHR 0x22]" "CHR 0x22" "[CHR ''a'', CHR 0x5C, CHR 0x22, CHR ''b'']"
              "CHR 0x22" "CHR 0x27" "[]"]
  by simp

section \<open>Properties of the accessors\<close>

text \<open>
  C10. \<open>GetEnv\<close> returns the default value both when the variable is absent and when it
  is present with the empty string as its value, and \<open>GetEnvOrPanic\<close> panics in both
  cases; a variable with a non-empty value is returned by both. Through the accessors a
  variable set to the empty string cannot be told from an unset one.
\<close>

theorem GetEnv_empty_is_unset:
  "(e key = None \<or> e key = Some [] \<longrightarrow>
      GetEnv e key defaultValue = defaultValue
      \<and> GetEnvOrPanic e key
          = Inl (''quickenv: required environment variable '' @ key @ '' is not set''))
   \<and> (e key = Some v \<and> v \<noteq> [] \<longrightarrow>
      GetEnv e key defaultValue = v \<and> GetEnvOrPanic e key = Inr v)
   \<and> GetEnv (e(key \<mapsto> [])) key defaultValue = GetEnv (e(key := None)) key defaultValue
   \<and> GetEnvOrPanic (e(key \<mapsto> [])) key = GetEnvOrPanic (e(key := None)) key"
  by (auto simp: GetEnv_def GetEnvOrPanic_def Getenv_def Let_def)

theorem GetEnv_empty_is_unset_witness:
  "GetEnv [''PORT'' \<mapsto> []] ''PORT'' ''8000'' = ''8000''
   \<and> GetEnv Map.empty ''PORT'' ''8000'' = ''8000''
   \<and> GetEnvOrPanic [''PORT'' \<mapsto> []] ''PORT''
        = Inl ''quickenv: required environment variable PORT is not set''
   \<and> GetEnvOrPanic Map.empty ''PORT''
        = Inl ''quickenv: required environment variable PORT is not set''
   \<and> GetEnv [''PORT'' \<mapsto> ''80''] ''PORT'' ''8000'' = ''80''
   \<and> GetEnvOrPanic [''PORT'' \<mapsto> ''80''] ''PORT'' = Inr ''80''"
  using GetEnv_empty_is_unset [of "[''PORT'' \<mapsto> []]" "''PORT''" "''8000''" "''x''"]
        GetEnv_empty_is_unset [of "Map.empty" "''PORT''" "''8000''" "''x''"]
        GetEnv_empty_is_unset [of "[''PORT'' \<mapsto> ''80'']" "''PORT''" "''8000''" "''80''"]
  by simp

section \<open>One step of the loading loop\<close>

text \<open>
  An instance of the letter and digit tables for the examples: the Cyrillic letters
  U+0410 to U+044F and the Arabic-Indic digits U+0660 to U+0669, which every version of
  Unicode has in these categories. The examples evaluate the tables at these code points
  and at U+FFFD, which is in neither category.
\<close>

definition sample_tables :: unicode_tables where
  "sample_tables =
     \<lparr>Letter = (\<lambda>r. 0x0410 \<le> r \<and> r \<le> 0x044F), Digit = (\<lambda>r. 0x0660 \<le> r \<and> r \<le> 0x0669)\<rparr>"

lemma load_lines_skip:
  assumes "TrimSpace text = [] \<or> HasPrefix (TrimSpace text) ''#''"
  shows "load_lines tbl options serr (text # rest) st loaded
           = load_lines tbl options serr rest st loaded"
  using assms by (auto simp: Let_def)

lemma load_lines_parse_error:
  assumes "TrimSpace text \<noteq> []" "\<not> HasPrefix (TrimSpace text) ''#''"
    and "parseLine tbl (TrimSpace text) = Inl err"
  shows "load_lines tbl options serr (text # rest) st loaded
           = load_lines tbl options serr rest
               (if Debug options
                then st\<lparr>stderr := stderr st @ [SkipInvalidLine (TrimSpace text) err]\<rparr> else st)
               loaded"
  using assms by (simp add: Let_def)

lemma load_lines_not_set:
  assumes "TrimSpace text \<noteq> []" "\<not> HasPrefix (TrimSpace text) ''#''"
    and "parseLine tbl (TrimSpace text) = Inr (key, val)"
    and "\<not> (Overwrite options \<or> Getenv (environ st) key = [])"
  shows "load_lines tbl options serr (text # rest) st loaded
           = load_lines tbl options serr rest st loaded"
  using assms by (simp add: Let_def)

lemma load_lines_set:
  assumes "TrimSpace text \<noteq> []" "\<not> HasPrefix (TrimSpace text) ''#''"
    and "parseLine tbl (TrimSpace text) = Inr (key, val)"
    and "Overwrite options \<or> Getenv (environ st) key = []"
    and "Setenv (environ st) key val = Inr e'"
  shows "load_lines tbl options serr (text # rest) st loaded
           = load_lines tbl options serr rest
               (if Debug options
                then st\<lparr>environ := e', stderr := stderr st @ [SetVar key (value_mask val)]\<rparr>
                else st\<lparr>environ := e'\<rparr>)
               (loaded + 1)"
  using assms by (auto simp: Let_def)

lemma load_lines_set_failed:
  assumes "TrimSpace text \<noteq> []" "\<not> HasPrefix (TrimSpace text) ''#''"
    and "parseLine tbl (TrimSpace text) = Inr (key, val)"
    and "Overwrite options \<or> Getenv (environ st) key = []"
    and "Setenv (environ st) key val = Inl err"
  shows "load_lines tbl options serr (text # rest) st loaded
           = (st, loaded, Some (SetFailed key err))"
  using assms by (auto simp: Let_def)

declare load_lines.simps(2) [simp del]

section \<open>Properties of the loader\<close>

text \<open>
  What a caller observes of a load: the environment afterwards, the count and the
  error. (The debug output on standard error is left out.)
\<close>

definition outcome :: "process \<times> nat \<times> load_error option \<Rightarrow> env \<times> nat \<times> load_error option" where
  "outcome r = (environ (fst r), fst (snd r), snd (snd r))"

text \<open>A line the loop passes over: empty or a comment after trimming, or rejected by the parser.\<close>

definition skipped :: "unicode_tables \<Rightarrow> string \<Rightarrow> bool" where
  "skipped tbl ln =
     (let line = TrimSpace ln in line = [] \<or> HasPrefix line ''#'' \<or> isl (parseLine tbl line))"

lemma load_lines_skipped:
  assumes "skipped tbl ln"
  shows "\<exists>st'. environ st' = environ st \<and> (\<not> Debug options \<longrightarrow> st' = st)
           \<and> load_lines tbl options serr (ln # rest) st loaded
               = load_lines tbl options serr rest st' loaded"
proof (cases "TrimSpace ln = [] \<or> HasPrefix (TrimSpace ln) ''#''")
  case True
  then show ?thesis
    using load_lines_skip [of ln tbl options serr rest st loaded] by auto
next
  case False
  with assms obtain err where err: "parseLine tbl (TrimSpace ln) = Inl err"
    by (auto simp: skipped_def Let_def isl_def)
  let ?st' = "if Debug options
              then st\<lparr>stderr := stderr st @ [SkipInvalidLine (TrimSpace ln) err]\<rparr> else st"
  have "load_lines tbl options serr (ln # rest) st loaded
          = load_lines tbl options serr rest ?st' loaded"
    using False err by (intro load_lines_parse_error) auto
  moreover have "environ ?st' = environ st" by simp
  moreover have "\<not> Debug options \<longrightarrow> ?st' = st" by simp
  ultimately show ?thesis by blast
qed

lemma load_lines_stderr_irrelevant:
  "environ st = environ st' \<Longrightarrow>
     outcome (load_lines tbl options serr ls st loaded)
       = outcome (load_lines tbl options serr ls st' loaded)"
proof (induction ls arbitrary: st st' loaded)
  case Nil
  then show ?case by (simp add: outcome_def split: option.splits)
next
  case (Cons ln rest)
  note env = Cons.prems
  show ?case
  proof (cases "TrimSpace ln = [] \<or> HasPrefix (TrimSpace ln) ''#''")
    case True
    then show ?thesis
      using Cons.IH [OF env] by (simp add: load_lines_skip)
  next
    case False
    then have ne: "TrimSpace ln \<noteq> []" "\<not> HasPrefix (TrimSpace ln) ''#''" by auto
    show ?thesis
    proof (cases "parseLine tbl (TrimSpace ln)")
      case (Inl err)
      show ?thesis
        unfolding load_lines_parse_error [OF ne Inl]
        by (rule Cons.IH) (simp add: env)
    next
      case (Inr kv)
      obtain key val where kv: "kv = (key, val)" by (cases kv)
      note p = Inr [unfolded kv]
      show ?thesis
      proof (cases "Overwrite options \<or> Getenv (environ st) key = []")
        case False
        moreover from False env have "\<not> (Overwrite options \<or> Getenv (environ st') key = [])"
          by simp
        ultimately show ?thesis
          using Cons.IH [OF env] by (simp add: load_lines_not_set [OF ne p])
      next
        case True
        with env have True': "Overwrite options \<or> Getenv (environ st') key = []" by simp
        show ?thesis
        proof (cases "Setenv (environ st) key val")
          case (Inl err)
          with env have "Setenv (environ st') key val = Inl err" by simp
          then show ?thesis
            using Inl env
            by (simp add: load_lines_set_failed [OF ne p True]
                load_lines_set_failed [OF ne p True'] outcome_def)
        next
          case (Inr e')
          with env have s': "Setenv (environ st') key val = Inr e'" by simp
          show ?thesis
            unfolding load_lines_set [OF ne p True Inr] load_lines_set [OF ne p True' s']
            by (rule Cons.IH) simp
        qed
      qed
    qed
  qed
qed

text \<open>
  Lines processed in sequence: the loop over \<open>pre @ rest\<close> is the loop over \<open>pre\<close>
  (with a scanner that ends without error) followed, unless setting a variable failed,
  by the loop over \<open>rest\<close> from the state and the count reached.
\<close>

lemma load_lines_append:
  "load_lines tbl options serr (pre @ rest) st loaded =
     (case load_lines tbl options None pre st loaded of
        (st1, n1, None) \<Rightarrow> load_lines tbl options serr rest st1 n1
      | (st1, n1, Some err) \<Rightarrow> (st1, n1, Some err))"
proof (induction pre arbitrary: st loaded)
  case Nil
  then show ?case by simp
next
  case (Cons ln pre)
  show ?case
  proof (cases "TrimSpace ln = [] \<or> HasPrefix (TrimSpace ln) ''#''")
    case True
    then show ?thesis
      using Cons.IH by (simp add: load_lines_skip)
  next
    case False
    then have ne: "TrimSpace ln \<noteq> []" "\<not> HasPrefix (TrimSpace ln) ''#''" by auto
    show ?thesis
    proof (cases "parseLine tbl (TrimSpace ln)")
      case (Inl err)
      show ?thesis
        using Cons.IH by (simp add: load_lines_parse_error [OF ne Inl])
    next
      case (Inr kv)
      obtain key val where kv: "kv = (key, val)" by (cases kv)
      note p = Inr [unfolded kv]
      show ?thesis
      proof (cases "Overwrite options \<or> Getenv (environ st) key = []")
        case False
        then show ?thesis
          using Cons.IH by (simp add: load_lines_not_set [OF ne p])
      next
        case True
        show ?thesis
        proof (cases "Setenv (environ st) key val")
          case (Inl err)
          then show ?thesis
            by (simp add: load_lines_set_failed [OF ne p True])
        next
          case (Inr e')
          show ?thesis
            using Cons.IH by (simp add: load_lines_set [OF ne p True Inr])
        qed
      qed
    qed
  qed
qed

lemma load_lines_error_kinds:
  "(case snd (snd (load_lines tbl options serr ls st loaded)) of
      None \<Rightarrow> True
    | Some (SetFailed key err) \<Rightarrow> True
    | Some (ReadFailed err) \<Rightarrow> serr = Some err
    | Some _ \<Rightarrow> False)"
proof (induction ls arbitrary: st loaded)
  case Nil
  then show ?case by (simp split: option.splits)
next
  case (Cons ln rest)
  show ?case
  proof (cases "TrimSpace ln = [] \<or> HasPrefix (TrimSpace ln) ''#''")
    case True
    then show ?thesis
      using Cons.IH by (simp add: load_lines_skip)
  next
    case False
    then have ne: "TrimSpace ln \<noteq> []" "\<not> HasPrefix (TrimSpace ln) ''#''" by auto
    show ?thesis
    proof (cases "parseLine tbl (TrimSpace ln)")
      case (Inl err)
      show ?thesis
        unfolding load_lines_parse_error [OF ne Inl] by (rule Cons.IH)
    next
      case (Inr kv)
      obtain key val where kv: "kv = (key, val)" by (cases kv)
      note p = Inr [unfolded kv]
      show ?thesis
      proof (cases "Overwrite options \<or> Getenv (environ st) key = []")
        case False
        then show ?thesis
          using Cons.IH by (simp add: load_lines_not_set [OF ne p])
      next
        case True
        show ?thesis
        proof (cases "Setenv (environ st) key val")
          case (Inl err)
          then show ?thesis
            by (simp add: load_lines_set_failed [OF ne p True])
        next
          case (Inr e')
          show ?thesis
            unfolding load_lines_set [OF ne p True Inr] by (rule Cons.IH)
        qed
      qed
    qed
  qed
qed

lemma load_lines_skipped_anywhere:
  assumes "skipped tbl ln"
  shows "outcome (load_lines tbl options serr (pre @ ln # post) st loaded)
           = outcome (load_lines tbl options serr (pre @ post) st loaded)"
proof -
  obtain st1 n1 r where pre: "load_lines tbl options None pre st loaded = (st1, n1, r)"
    by (cases "load_lines tbl options None pre st loaded") auto
  show ?thesis
  proof (cases r)
    case (Some err)
    with pre show ?thesis
      by (simp add: load_lines_append [of tbl options serr pre])
  next
    case None
    obtain st' where st': "environ st' = environ st1"
      "load_lines tbl options serr (ln # post) st1 n1 = load_lines tbl options serr post st' n1"
      using load_lines_skipped [OF assms, of st1 options serr post n1] by blast
    have "outcome (load_lines tbl options serr post st' n1)
            = outcome (load_lines tbl options serr post st1 n1)"
      by (rule load_lines_stderr_irrelevant) (rule st'(1))
    with pre None st'(2) show ?thesis
      by (simp add: load_lines_append [of tbl options serr pre])
  qed
qed

text \<open>
  C6. A line that is empty or a comment after trimming, or that the parser rejects, is
  passed over and the loop goes on with the next line: wherever it stands in the input,
  the environment, the count and the error of the load are those of the input without
  it. At the head of the input the loop continues from a state with the same
  environment and the same count (only the debug output may have grown). The error a
  load returns is never a parse error: it is none, a failure to set a variable, or the
  error of the scanner.
\<close>

theorem parse_failures_are_skipped:
  "(skipped tbl ln \<longrightarrow>
      outcome (load_lines tbl options serr (pre @ ln # post) st loaded)
        = outcome (load_lines tbl options serr (pre @ post) st loaded)
      \<and> (\<exists>st'. environ st' = environ st \<and> (\<not> Debug options \<longrightarrow> st' = st)
            \<and> load_lines tbl options serr (ln # post) st loaded
                = load_lines tbl options serr post st' loaded))
   \<and> (case snd (snd (load_lines tbl options serr ls st loaded)) of
        None \<Rightarrow> True
      | Some (SetFailed key err) \<Rightarrow> True
      | Some (ReadFailed err) \<Rightarrow> serr = Some err
      | Some _ \<Rightarrow> False)"
proof (intro conjI impI)
  show "case snd (snd (load_lines tbl options serr ls st loaded)) of
        None \<Rightarrow> True
      | Some (SetFailed key err) \<Rightarrow> True
      | Some (ReadFailed err) \<Rightarrow> serr = Some err
      | Some _ \<Rightarrow> False"
    by (rule load_lines_error_kinds)
next
  assume s: "skipped tbl ln"
  show "outcome (load_lines tbl options serr (pre @ ln # post) st loaded)
        = outcome (load_lines tbl options serr (pre @ post) st loaded)"
    by (rule load_lines_skipped_anywhere [OF s])
next
  assume s: "skipped tbl ln"
  show "\<exists>st'. environ st' = environ st \<and> (\<not> Debug options \<longrightarrow> st' = st)
            \<and> load_lines tbl options serr (ln # post) st loaded
                = load_lines tbl options serr post st' loaded"
    by (rule load_lines_skipped [OF s])
qed

theorem parse_failures_are_skipped_witness:
  "skipped sample_tables ''justvalue'' \<and> skipped sample_tables ''  # comment'' \<and> skipped sample_tables ''   ''
   \<and> outcome (load_lines sample_tables DefaultLoadOptions None [''A=1'', ''justvalue'', ''B=2'']
                \<lparr>environ = Map.empty, stderr = []\<rparr> 0)
       = outcome (load_lines sample_tables DefaultLoadOptions None [''A=1'', ''B=2'']
                \<lparr>environ = Map.empty, stderr = []\<rparr> 0)
   \<and> outcome (load_lines sample_tables DefaultLoadOptions None [''  # comment'', ''B=2'']
                \<lparr>environ = Map.empty, stderr = []\<rparr> 0)
       = outcome (load_lines sample_tables DefaultLoadOptions None [''B=2'']
                \<lparr>environ = Map.empty, stderr = []\<rparr> 0)"
proof -
  have s1: "skipped sample_tables ''justvalue''" by code_simp
  have s2: "skipped sample_tables ''  # comment''" by code_simp
  have s3: "skipped sample_tables ''   ''" by code_simp
  show ?thesis
    using s1 s2 s3
      parse_failures_are_skipped [where tbl = sample_tables and ln = "''justvalue''"
        and options = DefaultLoadOptions and serr = None and pre = "[''A=1'']"
        and post = "[''B=2'']" and st = "\<lparr>environ = Map.empty, stderr = []\<rparr>"
        and loaded = 0 and ls = "[]"]
      parse_failures_are_skipped [where tbl = sample_tables and ln = "''  # comment''"
        and options = DefaultLoadOptions and serr = None and pre = "[]"
        and post = "[''B=2'']" and st = "\<lparr>environ = Map.empty, stderr = []\<rparr>"
        and loaded = 0 and ls = "[]"]
    by simp
qed

lemma Setenv_Inr:
  "Setenv e key val = Inr e' \<Longrightarrow> e' = e(key \<mapsto> val)"
  by (auto simp: Setenv_def split: if_splits)

lemma scenario_tokens:
  "scan_tokens \<lparr>data = ''DB_PORT=8080'' @ [CHR 0x0A] @ ''# comment'' @ [CHR 0x0A]
                          @ ''export NAME='' @ [CHR 0x22, CHR ''A'', CHR 0x22],
                 fails = False\<rparr>
     = [''DB_PORT=8080'', ''# comment'', ''export NAME='' @ [CHR 0x22, CHR ''A'', CHR 0x22]]"
  by (simp add: scan_tokens_def MaxScanTokenSize_def dropCR_def)

lemma scenario_err:
  "scan_err \<lparr>data = ''DB_PORT=8080'' @ [CHR 0x0A] @ ''# comment'' @ [CHR 0x0A]
                       @ ''export NAME='' @ [CHR 0x22, CHR ''A'', CHR 0x22],
              fails = False\<rparr> = None"
  by (simp add: scan_err_def MaxScanTokenSize_def)

lemma scenario_load:
  assumes "\<not> Overwrite options" "Getenv (environ st) ''DB_PORT'' \<noteq> []"
    and "Getenv (environ st) ''NAME'' = []"
  shows "outcome (loadFromReader tbl
            \<lparr>data = ''DB_PORT=8080'' @ [CHR 0x0A] @ ''# comment'' @ [CHR 0x0A]
                      @ ''export NAME='' @ [CHR 0x22, CHR ''A'', CHR 0x22],
             fails = False\<rparr> options st)
          = ((environ st)(''NAME'' \<mapsto> ''A''), 1, None)"
proof -
  let ?l3 = "''export NAME='' @ [CHR 0x22, CHR ''A'', CHR 0x22]"
  have t1: "TrimSpace ''DB_PORT=8080'' = ''DB_PORT=8080''" by code_simp
  have p1: "parseLine tbl ''DB_PORT=8080'' = Inr (''DB_PORT'', ''8080'')" by code_simp
  have t2: "TrimSpace ''# comment'' = ''# comment''" by code_simp
  have t3: "TrimSpace ?l3 = ?l3" by code_simp
  have p3: "parseLine tbl ?l3 = Inr (''NAME'', ''A'')" by code_simp
  have step1: "load_lines tbl options None [''DB_PORT=8080'', ''# comment'', ?l3] st 0
                 = load_lines tbl options None [''# comment'', ?l3] st 0"
    using assms by (intro load_lines_not_set [where key = "''DB_PORT''" and val = "''8080''"])
      (simp_all add: t1 p1 HasPrefix_def)
  have step2: "load_lines tbl options None [''# comment'', ?l3] st 0
                 = load_lines tbl options None [?l3] st 0"
    by (intro load_lines_skip) (simp add: t2 HasPrefix_def)
  have set3: "Setenv (environ st) ''NAME'' ''A'' = Inr ((environ st)(''NAME'' \<mapsto> ''A''))"
    by (simp add: Setenv_def)
  have step3: "load_lines tbl options None [?l3] st 0
                 = load_lines tbl options None []
                     (if Debug options
                      then st\<lparr>environ := (environ st)(''NAME'' \<mapsto> ''A''),
                              stderr := stderr st @ [SetVar ''NAME'' (value_mask ''A'')]\<rparr>
                      else st\<lparr>environ := (environ st)(''NAME'' \<mapsto> ''A'')\<rparr>)
                     (0 + 1)"
    using assms set3
    by (intro load_lines_set [where key = "''NAME''" and val = "''A''"])
      (simp_all only: t3 p3, simp_all add: HasPrefix_def)
  show ?thesis
    unfolding loadFromReader_def scenario_tokens scenario_err step1 step2 step3
    by (simp add: outcome_def)
qed

text \<open>
  C4. For a line that parses to a key and a value, the loader calls \<open>Setenv\<close> exactly
  when \<open>Overwrite\<close> is set or the variable is unset or empty in the environment. When
  the call succeeds the environment maps the key to the value and the count grows by
  one; when the line is not applied, the state and the count are unchanged; when the
  call fails, the load stops with the count unchanged. Loading the three lines
  \<open>DB_PORT=8080\<close>, \<open># comment\<close>, \<open>export NAME="A"\<close> without \<open>Overwrite\<close>, with
  \<open>DB_PORT\<close> set and \<open>NAME\<close> not set, returns the count 1 and changes only \<open>NAME\<close>.
\<close>

theorem overwrite_policy:
  "(TrimSpace ln \<noteq> [] \<and> \<not> HasPrefix (TrimSpace ln) ''#''
      \<and> parseLine tbl (TrimSpace ln) = Inr (key, val) \<longrightarrow>
      (if Overwrite options \<or> Getenv (environ st) key = [] then
         (case Setenv (environ st) key val of
            Inr e' \<Rightarrow>
              e' = (environ st)(key \<mapsto> val)
              \<and> (\<exists>st'. environ st' = e'
                     \<and> load_lines tbl options serr (ln # rest) st loaded
                         = load_lines tbl options serr rest st' (loaded + 1))
          | Inl err \<Rightarrow>
              load_lines tbl options serr (ln # rest) st loaded
                = (st, loaded, Some (SetFailed key err)))
       else load_lines tbl options serr (ln # rest) st loaded
              = load_lines tbl options serr rest st loaded))
   \<and> (\<not> Overwrite options \<and> Getenv (environ st) ''DB_PORT'' \<noteq> []
        \<and> Getenv (environ st) ''NAME'' = [] \<longrightarrow>
      outcome (loadFromReader tbl
            \<lparr>data = ''DB_PORT=8080'' @ [CHR 0x0A] @ ''# comment'' @ [CHR 0x0A]
                      @ ''export NAME='' @ [CHR 0x22, CHR ''A'', CHR 0x22],
             fails = False\<rparr> options st)
        = ((environ st)(''NAME'' \<mapsto> ''A''), 1, None))"
proof (intro conjI impI)
  assume "\<not> Overwrite options \<and> Getenv (environ st) ''DB_PORT'' \<noteq> []
        \<and> Getenv (environ st) ''NAME'' = []"
  then show "outcome (loadFromReader tbl
            \<lparr>data = ''DB_PORT=8080'' @ [CHR 0x0A] @ ''# comment'' @ [CHR 0x0A]
                      @ ''export NAME='' @ [CHR 0x22, CHR ''A'', CHR 0x22],
             fails = False\<rparr> options st)
        = ((environ st)(''NAME'' \<mapsto> ''A''), 1, None)"
    by (intro scenario_load) simp_all
next
  assume a: "TrimSpace ln \<noteq> [] \<and> \<not> HasPrefix (TrimSpace ln) ''#''
      \<and> parseLine tbl (TrimSpace ln) = Inr (key, val)"
  then have ne: "TrimSpace ln \<noteq> []" "\<not> HasPrefix (TrimSpace ln) ''#''"
    and p: "parseLine tbl (TrimSpace ln) = Inr (key, val)" by auto
  show "if Overwrite options \<or> Getenv (environ st) key = [] then
         (case Setenv (environ st) key val of
            Inr e' \<Rightarrow>
              e' = (environ st)(key \<mapsto> val)
              \<and> (\<exists>st'. environ st' = e'
                     \<and> load_lines tbl options serr (ln # rest) st loaded
                         = load_lines tbl options serr rest st' (loaded + 1))
          | Inl err \<Rightarrow>
              load_lines tbl options serr (ln # rest) st loaded
                = (st, loaded, Some (SetFailed key err)))
       else load_lines tbl options serr (ln # rest) st loaded
              = load_lines tbl options serr rest st loaded"
  proof (cases "Overwrite options \<or> Getenv (environ st) key = []")
    case False
    then show ?thesis
      using load_lines_not_set [OF ne p False] by simp
  next
    case True
    show ?thesis
    proof (cases "Setenv (environ st) key val")
      case (Inl err)
      then show ?thesis
        using True load_lines_set_failed [OF ne p True Inl] by simp
    next
      case (Inr e')
      let ?st' = "if Debug options
                  then st\<lparr>environ := e', stderr := stderr st @ [SetVar key (value_mask val)]\<rparr>
                  else st\<lparr>environ := e'\<rparr>"
      have "environ ?st' = e'" by simp
      moreover have "load_lines tbl options serr (ln # rest) st loaded
                       = load_lines tbl options serr rest ?st' (loaded + 1)"
        by (rule load_lines_set [OF ne p True Inr])
      ultimately have "\<exists>st'. environ st' = e'
                     \<and> load_lines tbl options serr (ln # rest) st loaded
                         = load_lines tbl options serr rest st' (loaded + 1)"
        by blast
      then show ?thesis
        using True Inr Setenv_Inr [OF Inr] by simp
    qed
  qed
qed

theorem overwrite_policy_witness:
  "outcome (loadFromReader sample_tables
            \<lparr>data = ''DB_PORT=8080'' @ [CHR 0x0A] @ ''# comment'' @ [CHR 0x0A]
                      @ ''export NAME='' @ [CHR 0x22, CHR ''A'', CHR 0x22],
             fails = False\<rparr> DefaultLoadOptions
            \<lparr>environ = [''DB_PORT'' \<mapsto> ''5432''], stderr = []\<rparr>)
     = ([''DB_PORT'' \<mapsto> ''5432'', ''NAME'' \<mapsto> ''A''], 1, None)"
  using overwrite_policy [where tbl = sample_tables and ln = "''x''" and key = "''x''"
      and val = "''x''" and options = DefaultLoadOptions and serr = None and rest = "[]"
      and loaded = 0 and st = "\<lparr>environ = [''DB_PORT'' \<mapsto> ''5432''], stderr = []\<rparr>"]
  by (simp add: DefaultLoadOptions_def Getenv_def)

lemma load_lines_read_error:
  assumes "load_lines tbl options None ls st loaded = (stp, cnt, None)"
  shows "load_lines tbl options (Some rerr) ls st loaded = (stp, cnt, Some (ReadFailed rerr))"
  using load_lines_append [of tbl options "Some rerr" ls "[]" st loaded] assms by simp

lemma load_lines_set_failed_anywhere:
  assumes pre: "load_lines tbl options None pre st loaded = (stp, cnt, None)"
    and ne: "TrimSpace ln \<noteq> []" "\<not> HasPrefix (TrimSpace ln) ''#''"
    and p: "parseLine tbl (TrimSpace ln) = Inr (key, val)"
    and c: "Overwrite options \<or> Getenv (environ stp) key = []"
    and f: "Setenv (environ stp) key val = Inl err"
  shows "load_lines tbl options serr (pre @ ln # post) st loaded
           = (stp, cnt, Some (SetFailed key err))"
  using load_lines_append [of tbl options serr pre "ln # post" st loaded] pre
    load_lines_set_failed [OF ne p c f, of serr post cnt]
  by simp

text \<open>
  C5. Every error of a load comes with the count reached. When the locator fails,
  \<open>Load\<close> returns the count 0 and leaves the process as it was. When the scanner stops
  with an error, the load returns that error with the state and the count that the lines
  read before it produce. When setting a variable fails, the load stops at that line and
  returns the error with the state and the count reached by the lines before it: the
  failed variable is not counted and no later line is applied.
\<close>

theorem errors_preserve_count:
  "(findEnvFile fs (Pathname (parseOptions opts)) (MaxLevels (parseOptions opts)) = Inl ferr \<longrightarrow>
      Load tbl fs opts st = (st, 0, Some ferr))
   \<and> (load_lines tbl options None ls st loaded = (stp, cnt, None) \<longrightarrow>
      load_lines tbl options (Some rerr) ls st loaded = (stp, cnt, Some (ReadFailed rerr)))
   \<and> (scan_err rd = Some rerr \<and> load_lines tbl options None (scan_tokens rd) st 0 = (stp, cnt, None) \<longrightarrow>
      loadFromReader tbl rd options st = (stp, cnt, Some (ReadFailed rerr)))
   \<and> (load_lines tbl options None pre st loaded = (stp, cnt, None)
        \<and> TrimSpace ln \<noteq> [] \<and> \<not> HasPrefix (TrimSpace ln) ''#''
        \<and> parseLine tbl (TrimSpace ln) = Inr (key, val)
        \<and> (Overwrite options \<or> Getenv (environ stp) key = [])
        \<and> Setenv (environ stp) key val = Inl err \<longrightarrow>
      load_lines tbl options serr (pre @ ln # post) st loaded
        = (stp, cnt, Some (SetFailed key err)))"
proof (intro conjI impI)
  assume "findEnvFile fs (Pathname (parseOptions opts)) (MaxLevels (parseOptions opts)) = Inl ferr"
  then show "Load tbl fs opts st = (st, 0, Some ferr)"
    by (simp add: Load_def Let_def)
next
  assume "load_lines tbl options None ls st loaded = (stp, cnt, None)"
  then show "load_lines tbl options (Some rerr) ls st loaded = (stp, cnt, Some (ReadFailed rerr))"
    by (rule load_lines_read_error)
next
  assume "scan_err rd = Some rerr \<and> load_lines tbl options None (scan_tokens rd) st 0 = (stp, cnt, None)"
  then show "loadFromReader tbl rd options st = (stp, cnt, Some (ReadFailed rerr))"
    by (simp add: loadFromReader_def load_lines_read_error)
next
  assume "load_lines tbl options None pre st loaded = (stp, cnt, None)
        \<and> TrimSpace ln \<noteq> [] \<and> \<not> HasPrefix (TrimSpace ln) ''#''
        \<and> parseLine tbl (TrimSpace ln) = Inr (key, val)
        \<and> (Overwrite options \<or> Getenv (environ stp) key = [])
        \<and> Setenv (environ stp) key val = Inl err"
  then show "load_lines tbl options serr (pre @ ln # post) st loaded
        = (stp, cnt, Some (SetFailed key err))"
    by (intro load_lines_set_failed_anywhere) auto
qed

lemma load_one_assignment:
  "load_lines sample_tables DefaultLoadOptions None [''A=1'']
       \<lparr>environ = Map.empty, stderr = []\<rparr> 0
     = (\<lparr>environ = [''A'' \<mapsto> ''1''], stderr = []\<rparr>, 1, None)"
proof -
  have t: "TrimSpace ''A=1'' = ''A=1''" by code_simp
  have p: "parseLine sample_tables ''A=1'' = Inr (''A'', ''1'')" by code_simp
  have s: "Setenv Map.empty ''A'' ''1'' = Inr [''A'' \<mapsto> ''1'']"
    by (simp add: Setenv_def)
  have "load_lines sample_tables DefaultLoadOptions None [''A=1'']
           \<lparr>environ = Map.empty, stderr = []\<rparr> 0
        = load_lines sample_tables DefaultLoadOptions None []
           (if Debug DefaultLoadOptions
            then \<lparr>environ = Map.empty, stderr = []\<rparr>\<lparr>environ := [''A'' \<mapsto> ''1''],
                   stderr := stderr \<lparr>environ = Map.empty, stderr = []\<rparr>
                               @ [SetVar ''A'' (value_mask ''1'')]\<rparr>
            else \<lparr>environ = Map.empty, stderr = []\<rparr>\<lparr>environ := [''A'' \<mapsto> ''1'']\<rparr>)
           (0 + 1)"
    by (rule load_lines_set [where key = "''A''" and val = "''1''"])
      (simp_all add: t p s HasPrefix_def Getenv_def)
  then show ?thesis
    by (simp add: DefaultLoadOptions_def)
qed

theorem errors_preserve_count_witness:
  "Load sample_tables \<lparr>stat_ok = (\<lambda>p. False), getwd = Some ''/'', open_file = (\<lambda>p. None)\<rparr> []
       \<lparr>environ = Map.empty, stderr = []\<rparr>
     = (\<lparr>environ = Map.empty, stderr = []\<rparr>, 0, Some (EnvFileNotFound ''.env''))
   \<and> loadFromReader sample_tables \<lparr>data = ''A=1'', fails = True\<rparr> DefaultLoadOptions
       \<lparr>environ = Map.empty, stderr = []\<rparr>
     = (\<lparr>environ = [''A'' \<mapsto> ''1''], stderr = []\<rparr>, 1, Some (ReadFailed IOError))
   \<and> load_lines sample_tables DefaultLoadOptions None [''A=1'', ''B='' @ [CHR 0x00], ''C=3'']
       \<lparr>environ = Map.empty, stderr = []\<rparr> 0
     = (\<lparr>environ = [''A'' \<mapsto> ''1''], stderr = []\<rparr>, 1, Some (SetFailed ''B'' EINVAL))"
proof -
  have f: "findEnvFile \<lparr>stat_ok = (\<lambda>p. False), getwd = Some ''/'', open_file = (\<lambda>p. None)\<rparr>
             (Pathname (parseOptions [])) (MaxLevels (parseOptions []))
           = Inl (EnvFileNotFound ''.env'')"
    by code_simp
  have tok: "scan_tokens \<lparr>data = ''A=1'', fails = True\<rparr> = [''A=1'']"
    by (simp add: scan_tokens_def MaxScanTokenSize_def dropCR_def)
  have serr: "scan_err \<lparr>data = ''A=1'', fails = True\<rparr> = Some IOError"
    by (simp add: scan_err_def MaxScanTokenSize_def)
  have t: "TrimSpace (''B='' @ [CHR 0x00]) = ''B='' @ [CHR 0x00]" by code_simp
  have p: "parseLine sample_tables (''B='' @ [CHR 0x00]) = Inr (''B'', [CHR 0x00])" by code_simp
  have s: "Setenv [''A'' \<mapsto> ''1''] ''B'' [CHR 0x00] = Inl EINVAL"
    by (simp add: Setenv_def)
  have h: "\<not> HasPrefix (''B='' @ [CHR 0x00]) ''#''"
    by (simp add: HasPrefix_def)
  show ?thesis
    using f tok serr t p s h load_one_assignment
      errors_preserve_count [where tbl = sample_tables and opts = "[]"
        and fs = "\<lparr>stat_ok = (\<lambda>p. False), getwd = Some ''/'', open_file = (\<lambda>p. None)\<rparr>"
        and ferr = "EnvFileNotFound ''.env''"
        and st = "\<lparr>environ = Map.empty, stderr = []\<rparr>"
        and options = DefaultLoadOptions and ls = "[''A=1'']" and loaded = 0
        and stp = "\<lparr>environ = [''A'' \<mapsto> ''1''], stderr = []\<rparr>" and cnt = 1
        and rerr = IOError and rd = "\<lparr>data = ''A=1'', fails = True\<rparr>"
        and pre = "[''A=1'']" and ln = "''B='' @ [CHR 0x00]" and key = "''B''"
        and val = "[CHR 0x00]" and err = EINVAL and serr = None and post = "[''C=3'']"]
    by (simp add: DefaultLoadOptions_def Getenv_def)
qed

text \<open>An entry that debug mode may add to the log when the loader runs.\<close>

definition masked_entry :: "log_entry \<Rightarrow> bool" where
  "masked_entry entry =
     (case entry of
        SkipInvalidLine line err \<Rightarrow> True
      | SetVar key shown \<Rightarrow> list_all (\<lambda>c. c = CHR ''*'') shown \<and> length shown \<le> 4)"

lemma value_mask_stars: "list_all (\<lambda>c. c = CHR ''*'') (value_mask val) \<and> length (value_mask val) \<le> 4"
  by (simp add: value_mask_def list_all_iff)

lemma masked_entry_skip: "masked_entry (SkipInvalidLine line err)"
  by (simp add: masked_entry_def)

lemma masked_entry_set: "masked_entry (SetVar key (value_mask val))"
  by (simp add: masked_entry_def value_mask_stars)

lemma load_lines_log_masked:
  "list_all masked_entry (stderr st) \<Longrightarrow>
     list_all masked_entry (stderr (fst (load_lines tbl options serr ls st loaded)))"
proof (induction ls arbitrary: st loaded)
  case Nil
  then show ?case by (simp split: option.splits)
next
  case (Cons ln rest)
  note inv = Cons.prems
  show ?case
  proof (cases "TrimSpace ln = [] \<or> HasPrefix (TrimSpace ln) ''#''")
    case True
    then show ?thesis
      using Cons.IH [OF inv] by (simp add: load_lines_skip)
  next
    case False
    then have ne: "TrimSpace ln \<noteq> []" "\<not> HasPrefix (TrimSpace ln) ''#''" by auto
    show ?thesis
    proof (cases "parseLine tbl (TrimSpace ln)")
      case (Inl err)
      show ?thesis
        unfolding load_lines_parse_error [OF ne Inl]
        by (rule Cons.IH) (simp add: inv masked_entry_skip)
    next
      case (Inr kv)
      obtain key val where kv: "kv = (key, val)" by (cases kv)
      note p = Inr [unfolded kv]
      show ?thesis
      proof (cases "Overwrite options \<or> Getenv (environ st) key = []")
        case False
        then show ?thesis
          using Cons.IH [OF inv] by (simp add: load_lines_not_set [OF ne p])
      next
        case True
        show ?thesis
        proof (cases "Setenv (environ st) key val")
          case (Inl err)
          then show ?thesis
            using inv by (simp add: load_lines_set_failed [OF ne p True])
        next
          case (Inr e')
          show ?thesis
            unfolding load_lines_set [OF ne p True Inr]
            by (rule Cons.IH) (simp add: inv masked_entry_set)
        qed
      qed
    qed
  qed
qed

text \<open>
  C2 (as the code has it). When debug mode is on and a line sets a variable, the loader
  logs the key with a mask of the value: as many asterisks as the value has bytes when
  the value has fewer than 5 bytes (so up to four asterisks), and the fixed mask of
  three asterisks for every value of 5 bytes or more. The mask is made of asterisks
  only and depends on nothing but the length of the value, and every entry that the
  loader logs for a variable it set carries such a mask: the value itself is not
  written.
\<close>

theorem debug_log_masks_value:
  "(length val < 5 \<longrightarrow> value_mask val = replicate (length val) (CHR ''*''))
   \<and> (5 \<le> length val \<longrightarrow> value_mask val = ''***'')
   \<and> (length v1 = length v2 \<longrightarrow> value_mask v1 = value_mask v2)
   \<and> (Debug options \<and> TrimSpace ln \<noteq> [] \<and> \<not> HasPrefix (TrimSpace ln) ''#''
        \<and> parseLine tbl (TrimSpace ln) = Inr (key, val)
        \<and> (Overwrite options \<or> Getenv (environ st) key = [])
        \<and> Setenv (environ st) key val = Inr e' \<longrightarrow>
      load_lines tbl options serr (ln # rest) st loaded
        = load_lines tbl options serr rest
            (st\<lparr>environ := e', stderr := stderr st @ [SetVar key (value_mask val)]\<rparr>)
            (loaded + 1))
   \<and> (list_all masked_entry (stderr st) \<longrightarrow>
      list_all masked_entry (stderr (fst (load_lines tbl options serr ls st loaded))))"
proof (intro conjI impI)
  assume "length val < 5"
  then show "value_mask val = replicate (length val) (CHR ''*'')"
    by (simp add: value_mask_def)
next
  assume "5 \<le> length val"
  then show "value_mask val = ''***''"
    by (simp add: value_mask_def)
next
  assume "length v1 = length v2"
  then show "value_mask v1 = value_mask v2"
    by (simp add: value_mask_def)
next
  assume "Debug options \<and> TrimSpace ln \<noteq> [] \<and> \<not> HasPrefix (TrimSpace ln) ''#''
        \<and> parseLine tbl (TrimSpace ln) = Inr (key, val)
        \<and> (Overwrite options \<or> Getenv (environ st) key = [])
        \<and> Setenv (environ st) key val = Inr e'"
  then show "load_lines tbl options serr (ln # rest) st loaded
        = load_lines tbl options serr rest
            (st\<lparr>environ := e', stderr := stderr st @ [SetVar key (value_mask val)]\<rparr>)
            (loaded + 1)"
    using load_lines_set [of ln tbl key val options st e' serr rest loaded] by simp
next
  assume "list_all masked_entry (stderr st)"
  then show "list_all masked_entry (stderr (fst (load_lines tbl options serr ls st loaded)))"
    by (rule load_lines_log_masked)
qed

lemma load_secret_with_debug:
  "load_lines sample_tables (DefaultLoadOptions\<lparr>Debug := True\<rparr>) None [''KEY=abcd'']
       \<lparr>environ = Map.empty, stderr = []\<rparr> 0
     = (\<lparr>environ = [''KEY'' \<mapsto> ''abcd''], stderr = [SetVar ''KEY'' ''****'']\<rparr>, 1, None)"
proof -
  have t: "TrimSpace ''KEY=abcd'' = ''KEY=abcd''" by code_simp
  have p: "parseLine sample_tables ''KEY=abcd'' = Inr (''KEY'', ''abcd'')" by code_simp
  have s: "Setenv Map.empty ''KEY'' ''abcd'' = Inr [''KEY'' \<mapsto> ''abcd'']"
    by (simp add: Setenv_def)
  have "load_lines sample_tables (DefaultLoadOptions\<lparr>Debug := True\<rparr>) None [''KEY=abcd'']
           \<lparr>environ = Map.empty, stderr = []\<rparr> 0
        = load_lines sample_tables (DefaultLoadOptions\<lparr>Debug := True\<rparr>) None []
           (if Debug (DefaultLoadOptions\<lparr>Debug := True\<rparr>)
            then \<lparr>environ = Map.empty, stderr = []\<rparr>\<lparr>environ := [''KEY'' \<mapsto> ''abcd''],
                   stderr := stderr \<lparr>environ = Map.empty, stderr = []\<rparr>
                               @ [SetVar ''KEY'' (value_mask ''abcd'')]\<rparr>
            else \<lparr>environ = Map.empty, stderr = []\<rparr>\<lparr>environ := [''KEY'' \<mapsto> ''abcd'']\<rparr>)
           (0 + 1)"
    by (rule load_lines_set [where key = "''KEY''" and val = "''abcd''"])
      (simp_all add: t p s HasPrefix_def Getenv_def)
  then show ?thesis
    by (simp add: DefaultLoadOptions_def value_mask_def)
qed

theorem debug_log_masks_value_witness:
  "value_mask ''abc'' = ''***'' \<and> value_mask ''abcd'' = ''****'' \<and> value_mask ''abcde'' = ''***''
   \<and> value_mask ''secret-password'' = ''***'' \<and> value_mask '''' = ''''
   \<and> value_mask ''abcd'' = value_mask ''wxyz''
   \<and> load_lines sample_tables (DefaultLoadOptions\<lparr>Debug := True\<rparr>) None [''KEY=abcd'']
        \<lparr>environ = Map.empty, stderr = []\<rparr> 0
      = load_lines sample_tables (DefaultLoadOptions\<lparr>Debug := True\<rparr>) None []
          \<lparr>environ = [''KEY'' \<mapsto> ''abcd''], stderr = [SetVar ''KEY'' ''****'']\<rparr> 1
   \<and> list_all masked_entry (stderr (fst (load_lines sample_tables
        (DefaultLoadOptions\<lparr>Debug := True\<rparr>) None [''KEY=abcd'']
        \<lparr>environ = Map.empty, stderr = []\<rparr> 0)))"
proof -
  have t: "TrimSpace ''KEY=abcd'' = ''KEY=abcd''" by code_simp
  have p: "parseLine sample_tables ''KEY=abcd'' = Inr (''KEY'', ''abcd'')" by code_simp
  have s: "Setenv Map.empty ''KEY'' ''abcd'' = Inr [''KEY'' \<mapsto> ''abcd'']"
    by (simp add: Setenv_def)
  have h: "\<not> HasPrefix ''KEY=abcd'' ''#''" by (simp add: HasPrefix_def)
  show ?thesis
    using t p s h
      debug_log_masks_value [where val = "''abc''" and ?v1.0 = "''abcd''" and ?v2.0 = "''wxyz''"
        and options = "DefaultLoadOptions\<lparr>Debug := True\<rparr>" and ln = "''KEY=abcd''"
        and tbl = sample_tables and key = "''x''" and st = "\<lparr>environ = Map.empty, stderr = []\<rparr>"
        and e' = "Map.empty" and serr = None and rest = "[]" and loaded = 0
        and ls = "[''KEY=abcd'']"]
      debug_log_masks_value [where val = "''abcd''" and ?v1.0 = "''abcd''" and ?v2.0 = "''wxyz''"
        and options = "DefaultLoadOptions\<lparr>Debug := True\<rparr>" and ln = "''KEY=abcd''"
        and tbl = sample_tables and key = "''KEY''" and st = "\<lparr>environ = Map.empty, stderr = []\<rparr>"
        and e' = "[''KEY'' \<mapsto> ''abcd'']" and serr = None and rest = "[]" and loaded = 0
        and ls = "[''KEY=abcd'']"]
      debug_log_masks_value [where val = "''abcde''" and ?v1.0 = "''abcd''" and ?v2.0 = "''wxyz''"
        and options = "DefaultLoadOptions\<lparr>Debug := True\<rparr>" and ln = "''KEY=abcd''"
        and tbl = sample_tables and key = "''x''" and st = "\<lparr>environ = Map.empty, stderr = []\<rparr>"
        and e' = "Map.empty" and serr = None and rest = "[]" and loaded = 0
        and ls = "[''KEY=abcd'']"]
    by (simp add: DefaultLoadOptions_def Getenv_def value_mask_def)
qed

theorem debug_mask_length_four_counterexample:
  "length ''abcd'' = 4
   \<and> stderr (fst (load_lines sample_tables (DefaultLoadOptions\<lparr>Debug := True\<rparr>) None
        [''KEY=abcd''] \<lparr>environ = Map.empty, stderr = []\<rparr> 0)) = [SetVar ''KEY'' ''****'']
   \<and> SetVar ''KEY'' ''****'' \<noteq> SetVar ''KEY'' ''***''"
  by (simp add: load_secret_with_debug)

section \<open>Properties of the key validator\<close>

text \<open>
  The rule for keys in the words of the specification, over the characters (code points)
  of the key: the first is a letter or the underscore, every later one a letter, a digit
  or the underscore.
\<close>

fun key_rule :: "unicode_tables \<Rightarrow> rune list \<Rightarrow> bool" where
  "key_rule tbl [] = False"
| "key_rule tbl (r # rs) =
     ((IsLetter tbl r \<or> r = 0x5F)
      \<and> list_all (\<lambda>c. IsLetter tbl c \<or> IsDigit tbl c \<or> c = 0x5F) rs)"

definition isValidEnvKey_spec :: "unicode_tables \<Rightarrow> string \<Rightarrow> bool" where
  "isValidEnvKey_spec tbl s = key_rule tbl (map snd (range_runes s))"

lemma key_rest_ok_list_all:
  "key_rest_ok tbl rs = list_all (\<lambda>c. IsLetter tbl c \<or> IsDigit tbl c \<or> c = 0x5F) (map snd rs)"
  by (induction tbl rs rule: key_rest_ok.induct) simp_all

text \<open>The runes of a string without their positions.\<close>

fun runes_from :: "nat \<Rightarrow> string \<Rightarrow> rune list" where
  "runes_from skip [] = []"
| "runes_from skip (c # cs) =
     (if 0 < skip then runes_from (skip - 1) cs
      else fst (DecodeRuneInString (c # cs))
             # runes_from (snd (DecodeRuneInString (c # cs)) - 1) cs)"

lemma map_snd_range_from: "map snd (range_from k i s) = runes_from k s"
proof (induction s arbitrary: k i)
  case Nil
  then show ?case by simp
next
  case (Cons c cs)
  show ?case
  proof (cases "0 < k")
    case True
    then show ?thesis
      by (simp only: range_from.simps runes_from.simps Cons.IH if_True)
  next
    case False
    then show ?thesis
      by (simp only: range_from.simps runes_from.simps Cons.IH if_False list.map snd_conv)
  qed
qed

lemma range_runes_ascii_head:
  assumes "byte c < 0x80"
  shows "map snd (range_runes (c # cs)) = byte c # map snd (range_runes cs)"
proof -
  have d: "DecodeRuneInString (c # cs) = (byte c, 1)"
    using assms by (simp add: Let_def)
  show ?thesis
    unfolding range_runes_def map_snd_range_from
    by (simp only: runes_from.simps d fst_conv snd_conv) simp
qed

lemma isValidEnvKey_bytes:
  "isValidEnvKey tbl s \<longleftrightarrow>
     s \<noteq> [] \<and> (IsLetter tbl (byte (hd s)) \<or> byte (hd s) = 0x5F)
     \<and> list_all (\<lambda>c. IsLetter tbl c \<or> IsDigit tbl c \<or> c = 0x5F) (map snd (range_runes (tl s)))"
  by (auto simp: isValidEnvKey_def Let_def key_rest_ok_list_all)

lemma isValidEnvKey_ascii_head:
  assumes "s = [] \<or> byte (hd s) < 0x80"
  shows "isValidEnvKey tbl s = isValidEnvKey_spec tbl s"
proof (cases s)
  case Nil
  then show ?thesis
    by (simp add: isValidEnvKey_def isValidEnvKey_spec_def range_runes_def)
next
  case (Cons c cs)
  with assms have "byte c < 0x80" by simp
  then show ?thesis
    unfolding Cons isValidEnvKey_bytes isValidEnvKey_spec_def
    by (simp add: range_runes_ascii_head)
qed

lemma lead_info_bounds:
  assumes "lead_info b = Some (sz, lo, hi)"
  shows "0x80 \<le> lo \<and> hi \<le> 0xBF \<and> 2 \<le> sz"
  using assms by (auto simp: lead_info_def split: if_splits)

lemma lead_info_continuation:
  assumes "0x80 \<le> b" "b \<le> 0xBF"
  shows "lead_info b = None"
  using assms by (simp add: lead_info_def)

lemma Decode_continuation_byte:
  assumes "0x80 \<le> byte c" "byte c \<le> 0xBF"
  shows "DecodeRuneInString (c # cs) = (RuneError, 1)"
  using assms by (simp add: Let_def lead_info_continuation)

lemma Decode_multibyte_second:
  assumes "1 < snd (DecodeRuneInString (c # cs))"
  shows "cs \<noteq> [] \<and> 0x80 \<le> byte (hd cs) \<and> byte (hd cs) \<le> 0xBF \<and> 0x80 \<le> byte c"
proof -
  from assms have ge: "\<not> byte c < 0x80"
    by (auto simp: Let_def)
  with assms obtain sz lo hi where li: "lead_info (byte c) = Some (sz, lo, hi)"
    by (cases "lead_info (byte c)") (auto simp: Let_def)
  note b = lead_info_bounds [OF li]
  from assms ge li have len: "\<not> length cs + 1 < sz"
    by (auto simp: Let_def)
  with b have ne: "cs \<noteq> []" by auto
  from assms ge li len have "\<not> (byte (cs ! 0) < lo \<or> hi < byte (cs ! 0))"
    by (auto simp: Let_def)
  with b ne ge show ?thesis
    by (cases cs) auto
qed

lemma isValidEnvKey_multibyte_head:
  assumes "1 < snd (DecodeRuneInString s)"
    and "\<not> Letter tbl RuneError" "\<not> Digit tbl RuneError"
  shows "\<not> isValidEnvKey tbl s"
proof -
  from assms(1) obtain c cs where s: "s = c # cs"
    by (cases s) auto
  from Decode_multibyte_second [of c cs] assms(1) s
  obtain d ds where cs: "cs = d # ds" and d: "0x80 \<le> byte d" "byte d \<le> 0xBF"
    by (cases cs) auto
  have "range_runes (d # ds) = (0, RuneError) # range_from 0 (Suc 0) ds"
    using Decode_continuation_byte [OF d, of ds] by (simp add: range_runes_def)
  moreover have "\<not> IsLetter tbl RuneError" "\<not> IsDigit tbl RuneError" "RuneError \<noteq> 0x5F"
    using assms(2,3) by (simp_all add: IsLetter_def IsDigit_def RuneError_def)
  ultimately show ?thesis
    by (simp add: isValidEnvKey_def s cs Let_def)
qed

text \<open>
  C1 (as the code has it). The validator accepts a key exactly when it is not empty, its
  first byte, taken as a code point of its own, is a letter or the underscore, and every
  character decoded from the bytes after the first is a letter, a digit or the
  underscore. For a key whose first character is a single byte (ASCII) this is the rule
  of the specification. A key whose first character takes more than one byte in UTF-8
  is rejected, whatever the character: the validator reads the second byte of the
  character as a character of its own, which decodes to U+FFFD.
\<close>

theorem isValidEnvKey_first_byte_rule:
  "(isValidEnvKey tbl s \<longleftrightarrow>
      s \<noteq> [] \<and> (IsLetter tbl (byte (hd s)) \<or> byte (hd s) = 0x5F)
      \<and> list_all (\<lambda>c. IsLetter tbl c \<or> IsDigit tbl c \<or> c = 0x5F)
            (map snd (range_runes (tl s))))
   \<and> (s = [] \<or> byte (hd s) < 0x80 \<longrightarrow> isValidEnvKey tbl s = isValidEnvKey_spec tbl s)
   \<and> (1 < snd (DecodeRuneInString s) \<and> \<not> Letter tbl RuneError \<and> \<not> Digit tbl RuneError \<longrightarrow>
        \<not> isValidEnvKey tbl s)"
proof (intro conjI impI)
  show "isValidEnvKey tbl s \<longleftrightarrow>
      s \<noteq> [] \<and> (IsLetter tbl (byte (hd s)) \<or> byte (hd s) = 0x5F)
      \<and> list_all (\<lambda>c. IsLetter tbl c \<or> IsDigit tbl c \<or> c = 0x5F)
            (map snd (range_runes (tl s)))"
    by (rule isValidEnvKey_bytes)
next
  assume "s = [] \<or> byte (hd s) < 0x80"
  then show "isValidEnvKey tbl s = isValidEnvKey_spec tbl s"
    by (rule isValidEnvKey_ascii_head)
next
  assume "1 < snd (DecodeRuneInString s) \<and> \<not> Letter tbl RuneError \<and> \<not> Digit tbl RuneError"
  then show "\<not> isValidEnvKey tbl s"
    using isValidEnvKey_multibyte_head [of s tbl] by (elim conjE)
qed

theorem isValidEnvKey_first_byte_rule_witness:
  "isValidEnvKey sample_tables ''PORT'' \<and> isValidEnvKey sample_tables ''_X''
   \<and> isValidEnvKey sample_tables ''Var1''
   \<and> isValidEnvKey sample_tables ''my-var'' = False
   \<and> isValidEnvKey sample_tables ''123'' = False
   \<and> isValidEnvKey sample_tables [CHR 0xD0, CHR 0xBA] = False
   \<and> isValidEnvKey sample_tables [CHR 0xD0, CHR 0xBA, CHR 0xD0, CHR 0xBE] = False
   \<and> isValidEnvKey sample_tables [CHR ''a'', CHR 0xD0, CHR 0xBA]"
proof -
  note ascii = isValidEnvKey_first_byte_rule
                 [where tbl = sample_tables, THEN conjunct2, THEN conjunct1, THEN mp, OF disjI2]
  note multi = isValidEnvKey_first_byte_rule
                 [where tbl = sample_tables, THEN conjunct2, THEN conjunct2, THEN mp, OF conjI,
                  OF _ conjI]
  have tbl: "\<not> Letter sample_tables RuneError" "\<not> Digit sample_tables RuneError"
    by (simp_all add: sample_tables_def RuneError_def)
  have "isValidEnvKey_spec sample_tables ''PORT''" "byte (hd ''PORT'') < 0x80"
    by code_simp+
  then have k1: "isValidEnvKey sample_tables ''PORT''"
    by (simp only: ascii)
  have "isValidEnvKey_spec sample_tables ''_X''" "byte (hd ''_X'') < 0x80"
    by code_simp+
  then have k2: "isValidEnvKey sample_tables ''_X''"
    by (simp only: ascii)
  have "isValidEnvKey_spec sample_tables ''Var1''" "byte (hd ''Var1'') < 0x80"
    by code_simp+
  then have k3: "isValidEnvKey sample_tables ''Var1''"
    by (simp only: ascii)
  have "\<not> isValidEnvKey_spec sample_tables ''my-var''" "byte (hd ''my-var'') < 0x80"
    by code_simp+
  then have k4: "isValidEnvKey sample_tables ''my-var'' = False"
    by (simp only: ascii)
  have "\<not> isValidEnvKey_spec sample_tables ''123''" "byte (hd ''123'') < 0x80"
    by code_simp+
  then have k5: "isValidEnvKey sample_tables ''123'' = False"
    by (simp only: ascii)
  have "1 < snd (DecodeRuneInString [CHR 0xD0, CHR 0xBA])"
    by code_simp
  then have k7: "isValidEnvKey sample_tables [CHR 0xD0, CHR 0xBA] = False"
    using multi [OF _ tbl] by (simp only: simp_thms)
  have "1 < snd (DecodeRuneInString [CHR 0xD0, CHR 0xBA, CHR 0xD0, CHR 0xBE])"
    by code_simp
  then have k8: "isValidEnvKey sample_tables [CHR 0xD0, CHR 0xBA, CHR 0xD0, CHR 0xBE] = False"
    using multi [OF _ tbl] by (simp only: simp_thms)
  have "isValidEnvKey_spec sample_tables [CHR ''a'', CHR 0xD0, CHR 0xBA]"
    "byte (hd [CHR ''a'', CHR 0xD0, CHR 0xBA]) < 0x80"
    by code_simp+
  then have k9: "isValidEnvKey sample_tables [CHR ''a'', CHR 0xD0, CHR 0xBA]"
    by (simp only: ascii)
  show ?thesis
    by (intro conjI k1 k2 k3 k4 k5 k7 k8 k9)
qed

text \<open>
  The Cyrillic letter U+043A is the two bytes D0 BA. As a key of one character it
  satisfies the rule of the specification, and the validator rejects it.
\<close>

theorem isValidEnvKey_cyrillic_counterexample:
  "map snd (range_runes [CHR 0xD0, CHR 0xBA]) = [0x043A]
   \<and> IsLetter sample_tables 0x043A
   \<and> isValidEnvKey_spec sample_tables [CHR 0xD0, CHR 0xBA]
   \<and> isValidEnvKey sample_tables [CHR 0xD0, CHR 0xBA] = False"
proof -
  have r: "map snd (range_runes [CHR 0xD0, CHR 0xBA]) = [0x043A]"
    by (simp add: range_runes_def byte_def lead_info_def)
  have l: "IsLetter sample_tables 0x043A"
    by (simp add: IsLetter_def sample_tables_def)
  have v: "isValidEnvKey sample_tables [CHR 0xD0, CHR 0xBA] = False"
    by (simp add: isValidEnvKey_def range_runes_def IsLetter_def IsDigit_def latin1_letter_def
        byte_def RuneError_def lead_info_def sample_tables_def)
  have "isValidEnvKey_spec sample_tables [CHR 0xD0, CHR 0xBA]"
    by (simp add: isValidEnvKey_spec_def r l)
  with r l v show ?thesis
    by (intro conjI)
qed

section \<open>Properties of the file locator\<close>

text \<open>
  The directories the climbing loop visits from \<open>dir\<close> in at most \<open>n\<close> steps: the
  parent, the parent's parent and so on, up to a directory that is its own parent.
\<close>

fun ancestors :: "nat \<Rightarrow> string \<Rightarrow> string list" where
  "ancestors 0 dir = []"
| "ancestors (Suc n) dir = (if Dir dir = dir then [] else Dir dir # ancestors n (Dir dir))"

lemma ancestors_length: "length (ancestors n dir) \<le> n"
  by (induction n arbitrary: dir) auto

lemma ancestors_nth:
  "k < length (ancestors n dir) \<Longrightarrow>
     ancestors n dir ! k = (Dir ^^ Suc k) dir \<and> (Dir ^^ Suc k) dir \<noteq> (Dir ^^ k) dir"
proof (induction n arbitrary: dir k)
  case 0
  then show ?case by simp
next
  case (Suc n)
  from Suc.prems have ne: "Dir dir \<noteq> dir"
    by (auto split: if_splits)
  show ?case
  proof (cases k)
    case 0
    with ne show ?thesis by simp
  next
    case (Suc j)
    with Suc.prems ne have "j < length (ancestors n (Dir dir))" by simp
    from Suc.IH [OF this] show ?thesis
      using ne Suc by (simp add: funpow_swap1)
  qed
qed

lemma ancestors_stop:
  "length (ancestors n dir) < n \<Longrightarrow>
     Dir ((Dir ^^ length (ancestors n dir)) dir) = (Dir ^^ length (ancestors n dir)) dir"
proof (induction n arbitrary: dir)
  case 0
  then show ?case by simp
next
  case (Suc n)
  show ?case
  proof (cases "Dir dir = dir")
    case True
    then show ?thesis by simp
  next
    case False
    with Suc.prems have "length (ancestors n (Dir dir)) < n" by simp
    from Suc.IH [OF this] show ?thesis
      using False by (simp add: funpow_swap1)
  qed
qed

lemma climb_find:
  "climb fs pathname n dir =
     (case find (stat_ok fs) (map (\<lambda>d. Join d pathname) (ancestors n dir)) of
        Some path \<Rightarrow> Inr path
      | None \<Rightarrow> Inl (EnvFileNotFound pathname))"
  by (induction n arbitrary: dir) (simp_all add: Let_def)

text \<open>
  C9 (as the code has it). The locator checks the name as given first, which the system
  resolves in the current working directory, and returns it when it exists. Otherwise it
  asks for the working directory; when that fails the result is the error of
  \<open>Getwd\<close>, which does not carry the file name. Otherwise it checks the name in the
  parent, the parent's parent and so on: at most \<open>maxLevels\<close> directories, each the
  parent of the one before and different from it, stopping before \<open>maxLevels\<close> only at
  a directory that is its own parent. It returns the first path found in this order,
  and when none exists it fails with the error carrying the requested name.
\<close>

theorem findEnvFile_nearest_first:
  "findEnvFile fs pathname maxLevels =
     (if stat_ok fs pathname then Inr pathname
      else case getwd fs of
        None \<Rightarrow> Inl CannotGetCurrentDir
      | Some dir \<Rightarrow>
          (case find (stat_ok fs) (map (\<lambda>d. Join d pathname) (ancestors (nat maxLevels) dir)) of
             Some path \<Rightarrow> Inr path
           | None \<Rightarrow> Inl (EnvFileNotFound pathname)))
   \<and> length (ancestors (nat maxLevels) dir) \<le> nat maxLevels
   \<and> (k < length (ancestors (nat maxLevels) dir) \<longrightarrow>
        ancestors (nat maxLevels) dir ! k = (Dir ^^ Suc k) dir
        \<and> (Dir ^^ Suc k) dir \<noteq> (Dir ^^ k) dir)
   \<and> (length (ancestors (nat maxLevels) dir) < nat maxLevels \<longrightarrow>
        Dir ((Dir ^^ length (ancestors (nat maxLevels) dir)) dir)
          = (Dir ^^ length (ancestors (nat maxLevels) dir)) dir)"
proof (intro conjI impI)
  show "findEnvFile fs pathname maxLevels =
     (if stat_ok fs pathname then Inr pathname
      else case getwd fs of
        None \<Rightarrow> Inl CannotGetCurrentDir
      | Some dir \<Rightarrow>
          (case find (stat_ok fs) (map (\<lambda>d. Join d pathname) (ancestors (nat maxLevels) dir)) of
             Some path \<Rightarrow> Inr path
           | None \<Rightarrow> Inl (EnvFileNotFound pathname)))"
    by (simp add: findEnvFile_def climb_find split: option.splits)
next
  show "length (ancestors (nat maxLevels) dir) \<le> nat maxLevels"
    by (rule ancestors_length)
next
  assume "k < length (ancestors (nat maxLevels) dir)"
  then show "ancestors (nat maxLevels) dir ! k = (Dir ^^ Suc k) dir"
    by (simp add: ancestors_nth)
next
  assume "k < length (ancestors (nat maxLevels) dir)"
  then show "(Dir ^^ Suc k) dir \<noteq> (Dir ^^ k) dir"
    using ancestors_nth by blast
next
  assume "length (ancestors (nat maxLevels) dir) < nat maxLevels"
  then show "Dir ((Dir ^^ length (ancestors (nat maxLevels) dir)) dir)
          = (Dir ^^ length (ancestors (nat maxLevels) dir)) dir"
    by (rule ancestors_stop)
qed

theorem findEnvFile_nearest_first_witness:
  "ancestors 3 ''/home/user/project/cmd/api''
     = [''/home/user/project/cmd'', ''/home/user/project'', ''/home/user'']
   \<and> ancestors 3 ''/home'' = [''/'']
   \<and> findEnvFile \<lparr>stat_ok = (\<lambda>p. p = ''/home/user/project/.env'' \<or> p = ''/home/user/.env''),
                   getwd = Some ''/home/user/project/cmd/api'', open_file = (\<lambda>p. None)\<rparr>
        ''.env'' 3 = Inr ''/home/user/project/.env''
   \<and> findEnvFile \<lparr>stat_ok = (\<lambda>p. p = ''/home/user/project/.env'' \<or> p = ''/home/user/.env''),
                   getwd = Some ''/home/user/project/cmd/api'', open_file = (\<lambda>p. None)\<rparr>
        ''.env'' 1 = Inl (EnvFileNotFound ''.env'')
   \<and> findEnvFile \<lparr>stat_ok = (\<lambda>p. p = ''.env'' \<or> p = ''/home/user/project/cmd/.env''),
                   getwd = Some ''/home/user/project/cmd/api'', open_file = (\<lambda>p. None)\<rparr>
        ''.env'' 3 = Inr ''.env''"
proof -
  have a: "ancestors 3 ''/home/user/project/cmd/api''
     = [''/home/user/project/cmd'', ''/home/user/project'', ''/home/user'']"
    by code_simp
  have a1: "ancestors 1 ''/home/user/project/cmd/api'' = [''/home/user/project/cmd'']"
    by code_simp
  have b: "ancestors 3 ''/home'' = [''/'']"
    by code_simp
  have j: "Join ''/home/user/project/cmd'' ''.env'' = ''/home/user/project/cmd/.env''"
    "Join ''/home/user/project'' ''.env'' = ''/home/user/project/.env''"
    "Join ''/home/user'' ''.env'' = ''/home/user/.env''"
    by code_simp+
  show ?thesis
    using a a1 b j
      findEnvFile_nearest_first [where pathname = "''.env''" and maxLevels = 3 and k = 0
        and dir = "''/home/user/project/cmd/api''"
        and fs = "\<lparr>stat_ok = (\<lambda>p. p = ''/home/user/project/.env'' \<or> p = ''/home/user/.env''),
                   getwd = Some ''/home/user/project/cmd/api'', open_file = (\<lambda>p. None)\<rparr>"]
      findEnvFile_nearest_first [where pathname = "''.env''" and maxLevels = 1 and k = 0
        and dir = "''/home/user/project/cmd/api''"
        and fs = "\<lparr>stat_ok = (\<lambda>p. p = ''/home/user/project/.env'' \<or> p = ''/home/user/.env''),
                   getwd = Some ''/home/user/project/cmd/api'', open_file = (\<lambda>p. None)\<rparr>"]
      findEnvFile_nearest_first [where pathname = "''.env''" and maxLevels = 3 and k = 0
        and dir = "''/home/user/project/cmd/api''"
        and fs = "\<lparr>stat_ok = (\<lambda>p. p = ''.env'' \<or> p = ''/home/user/project/cmd/.env''),
                   getwd = Some ''/home/user/project/cmd/api'', open_file = (\<lambda>p. None)\<rparr>"]
    by (simp add: eval_nat_numeral)
qed

text \<open>
  When the working directory cannot be determined and the name as given does not exist,
  no directory holds the file and the error is not the one carrying the file name.
\<close>

theorem findEnvFile_getwd_counterexample:
  "findEnvFile \<lparr>stat_ok = (\<lambda>p. False), getwd = None, open_file = (\<lambda>p. None)\<rparr> ''.env'' 3
     = Inl CannotGetCurrentDir
   \<and> CannotGetCurrentDir \<noteq> EnvFileNotFound ''.env''"
  by (simp add: findEnvFile_def)

end
